theory Spec2Isabelle
  imports Complex_Main "HOL-Library.Sublist"
begin

section \<open>Values, errors and the numeric helpers of the analyzer\<close>

text \<open>
  The analyzer of \<^verbatim>\<open>backend/utils/time_series.py\<close> works on Python lists of numbers.
  A series is a list of reals, in chronological order. Every public method wraps its body
  in \<^verbatim>\<open>try ... except Exception as e: return {'error': str(e)}\<close>; the model returns a sum
  type whose left injection is that error dictionary.
\<close>

datatype exn = ZeroDivisionError | LibraryError

datatype error = Message string | Raised exn

text \<open>Python's \<^verbatim>\<open>a / b\<close> on numbers of a list: a zero divisor raises.\<close>

definition truediv :: "real \<Rightarrow> real \<Rightarrow> exn + real" where
  "truediv a b = (if b = 0 then Inl ZeroDivisionError else Inr (a / b))"

text \<open>\<^verbatim>\<open>np.arange(n)\<close>, \<^verbatim>\<open>np.mean\<close>, \<^verbatim>\<open>np.var\<close> and \<^verbatim>\<open>np.std\<close> (population
  variance, \<^verbatim>\<open>ddof = 0\<close>).\<close>

definition np_arange :: "nat \<Rightarrow> real list" where
  "np_arange n = map real [0..<n]"

definition np_mean :: "real list \<Rightarrow> real" where
  "np_mean xs = sum_list xs / real (length xs)"

definition np_var :: "real list \<Rightarrow> real" where
  "np_var xs = np_mean (map (\<lambda>v. (v - np_mean xs)\<^sup>2) xs)"

definition np_std :: "real list \<Rightarrow> real" where
  "np_std xs = sqrt (np_var xs)"

text \<open>
  \<^verbatim>\<open>np.polyfit(x, y, 1)\<close> is numpy's least-squares fit of a line; it is not code of the
  repository. It is modelled by the exact least-squares solution
  (slope = Sxy / Sxx over the centred data, intercept = mean y - slope * mean x),
  returned as the pair
  (slope, intercept) in numpy's order.
\<close>

definition np_polyfit1 :: "real list \<Rightarrow> real list \<Rightarrow> real \<times> real" where
  "np_polyfit1 x y =
     (let mx = np_mean x; my = np_mean y;
          sxy = sum_list (map2 (\<lambda>a b. (a - mx) * (b - my)) x y);
          sxx = sum_list (map (\<lambda>a. (a - mx)\<^sup>2) x);
          s = sxy / sxx
      in (s, my - s * mx))"

section \<open>Trend analysis\<close>

record trend_result =
  slope :: real
  intercept :: real
  r_squared :: real
  direction :: string
  percentage_change :: real
  start_value :: real
  end_value :: real
  data_points :: nat

text \<open>The expression \<^verbatim>\<open>((data[-1] - data[0]) / data[0]) * 100\<close> under its guard
  \<^verbatim>\<open>if len(data) >= 2\<close>.\<close>

definition percentage_change_of :: "real list \<Rightarrow> exn + real" where
  "percentage_change_of data =
     (if length data \<ge> 2
      then (case truediv (last data - hd data) (hd data) of
              Inl e \<Rightarrow> Inl e
            | Inr q \<Rightarrow> Inr (q * 100))
      else Inr 0)"

definition direction_of :: "real \<Rightarrow> string" where
  "direction_of s =
     (if \<bar>s\<bar> < 0.01 then ''stable''
      else if s > 0 then ''increasing''
      else ''decreasing'')"

definition analyze_trend :: "real list \<Rightarrow> error + trend_result" where
  "analyze_trend data =
     (if data = [] \<or> length data < 2
      then Inl (Message ''Insufficient data for trend analysis'')
      else
        let x = np_arange (length data);
            y = data;
            (s, c) = np_polyfit1 x y;
            y_pred = map (\<lambda>xi. s * xi + c) x;
            ss_tot = sum_list (map (\<lambda>v. (v - np_mean y)\<^sup>2) y);
            ss_res = sum_list (map2 (\<lambda>v p. (v - p)\<^sup>2) y y_pred);
            r2 = (if ss_tot > 0 then 1 - ss_res / ss_tot else 0)
        in case percentage_change_of data of
             Inl e \<Rightarrow> Inl (Raised e)
           | Inr pc \<Rightarrow>
               Inr \<lparr> slope = s, intercept = c, r_squared = r2,
                     direction = direction_of s, percentage_change = pc,
                     start_value = hd data, end_value = last data,
                     data_points = length data \<rparr>)"

section \<open>Forecasting\<close>

text \<open>
  The exponential-smoothing and ARIMA models come from statsmodels, which is not code of
  the repository. The model takes them as parameters: fitting either raises (\<open>None\<close>) or
  returns a fitted model with its AIC and its \<^verbatim>\<open>forecast(periods)\<close> method, which again
  either raises or returns a list of values.
\<close>

record fitted =
  aic :: real
  forecast_steps :: "int \<Rightarrow> real list option"

record statsmodels =
  ExponentialSmoothing_fit ::
    "real list \<Rightarrow> string option \<Rightarrow> string option \<Rightarrow> nat option \<Rightarrow> fitted option"
  ARIMA_fit :: "real list \<Rightarrow> nat \<times> nat \<times> nat \<Rightarrow> fitted option"

text \<open>\<^verbatim>\<open>[v] * periods\<close>: the empty list when \<^verbatim>\<open>periods\<close> is not positive.\<close>

definition list_times :: "real \<Rightarrow> int \<Rightarrow> real list" where
  "list_times v periods = replicate (nat periods) v"

text \<open>One round of the search loops: a candidate that raises is skipped
  (\<^verbatim>\<open>continue\<close>), a fitted one replaces the best when \<^verbatim>\<open>fit.aic < best_aic\<close>;
  \<open>None\<close> is the initial state (\<^verbatim>\<open>best_model = None\<close>, \<^verbatim>\<open>best_aic = inf\<close>).\<close>

definition keep_best :: "fitted option \<Rightarrow> fitted option \<Rightarrow> fitted option" where
  "keep_best best cand =
     (case cand of
        None \<Rightarrow> best
      | Some f \<Rightarrow>
          (case best of
             None \<Rightarrow> Some f
           | Some b \<Rightarrow> if aic f < aic b then Some f else Some b))"

definition predict_linear :: "real list \<Rightarrow> int \<Rightarrow> real list" where
  "predict_linear ts periods =
     (if length ts < 2 then list_times 0 periods
      else
        let x = np_arange (length ts);
            (s, c) = np_polyfit1 x ts
        in map (\<lambda>i. max 0 (s * (real (length ts) + real_of_int i - 1) + c)) [1..periods])"

definition ets_models :: "(string \<times> string) list" where
  "ets_models = [(''add'', ''add''), (''add'', ''mul''), (''mul'', ''add''), (''mul'', ''mul'')]"

definition ets_search :: "statsmodels \<Rightarrow> real list \<Rightarrow> fitted option" where
  "ets_search L ts =
     foldl (\<lambda>best (t, s).
              keep_best best
                (ExponentialSmoothing_fit L ts (Some t) (Some s)
                   (Some (min 12 (length ts div 2)))))
       None ets_models"

definition predict_ets :: "statsmodels \<Rightarrow> real list \<Rightarrow> int \<Rightarrow> real list" where
  "predict_ets L ts periods =
     (let best_model =
            (case ets_search L ts of
               None \<Rightarrow> ExponentialSmoothing_fit L ts (Some ''add'') None None
             | Some b \<Rightarrow> Some b)
      in case best_model of
           None \<Rightarrow> predict_linear ts periods
         | Some b \<Rightarrow>
             (case forecast_steps b periods of
                None \<Rightarrow> predict_linear ts periods
              | Some predictions \<Rightarrow> map (max 0) predictions))"

definition arima_params :: "(nat \<times> nat \<times> nat) list" where
  "arima_params = [(1, 1, 1), (1, 1, 0), (0, 1, 1), (2, 1, 1), (1, 1, 2)]"

definition arima_search :: "statsmodels \<Rightarrow> real list \<Rightarrow> fitted option" where
  "arima_search L ts =
     foldl (\<lambda>best pdq. keep_best best (ARIMA_fit L ts pdq)) None arima_params"

definition predict_arima :: "statsmodels \<Rightarrow> real list \<Rightarrow> int \<Rightarrow> real list" where
  "predict_arima L ts periods =
     (let best_model =
            (case arima_search L ts of
               None \<Rightarrow> ARIMA_fit L ts (1, 1, 1)
             | Some b \<Rightarrow> Some b)
      in case best_model of
           None \<Rightarrow> predict_linear ts periods
         | Some b \<Rightarrow>
             (case forecast_steps b periods of
                None \<Rightarrow> predict_linear ts periods
              | Some predictions \<Rightarrow> map (max 0) predictions))"

definition predict :: "statsmodels \<Rightarrow> real list \<Rightarrow> int \<Rightarrow> string \<Rightarrow> real list" where
  "predict L data periods method =
     (if data = [] \<or> length data < 3 then list_times 0 periods
      else if method = ''ets'' then predict_ets L data periods
      else if method = ''arima'' then predict_arima L data periods
      else if method = ''linear'' then predict_linear data periods
      else predict_ets L data periods)"

text \<open>The dictionary returned by \<^verbatim>\<open>forecast_with_intervals\<close>. The early return for
  short data has no \<^verbatim>\<open>'confidence_level'\<close> key: the field is \<open>None\<close> there.\<close>

record forecast_result =
  forecast :: "real list"
  lower_bound :: "real list"
  upper_bound :: "real list"
  confidence_level :: "real option"

text \<open>\<^verbatim>\<open>ts.diff().dropna()\<close>: the first differences, without the leading NaN.\<close>

definition diff_dropna :: "real list \<Rightarrow> real list" where
  "diff_dropna ts = map2 (\<lambda>prev cur. cur - prev) ts (tl ts)"

text \<open>
  No operation of the body raises in the model (\<open>predict\<close> handles its own failures), so
  the handler of \<^verbatim>\<open>forecast_with_intervals\<close> has no branch here.
\<close>

definition forecast_with_intervals ::
    "statsmodels \<Rightarrow> real list \<Rightarrow> int \<Rightarrow> real \<Rightarrow> string \<Rightarrow> forecast_result" where
  "forecast_with_intervals L data periods alpha method =
     (if data = [] \<or> length data < 3
      then \<lparr> forecast = list_times 0 periods, lower_bound = list_times 0 periods,
             upper_bound = list_times 0 periods, confidence_level = None \<rparr>
      else
        let fc = predict L data periods method;
            residuals = diff_dropna data
        in if length residuals > 0
           then
             let residual_std = np_std residuals;
                 se = map (\<lambda>k. residual_std * sqrt (real_of_int k)) [1..periods];
                 z_score = 1.96
             in \<lparr> forecast = fc,
                   lower_bound = map2 (\<lambda>f s. max 0 (f - z_score * s)) fc se,
                   upper_bound = map2 (\<lambda>f s. f + z_score * s) fc se,
                   confidence_level = Some ((1 - alpha) * 100) \<rparr>
           else
             \<lparr> forecast = fc,
               lower_bound = map (\<lambda>f. max 0 (f * 0.8)) fc,
               upper_bound = map (\<lambda>f. f * 1.2) fc,
               confidence_level = Some ((1 - alpha) * 100) \<rparr>)"

text \<open>What the callers rely on from statsmodels: \<^verbatim>\<open>forecast(n)\<close> of a fitted model
  returns \<^verbatim>\<open>n\<close> values when it returns.\<close>

definition forecast_contract :: "fitted \<Rightarrow> bool" where
  "forecast_contract f = (\<forall>n r. forecast_steps f n = Some r \<longrightarrow> length r = nat n)"

definition statsmodels_contract :: "statsmodels \<Rightarrow> bool" where
  "statsmodels_contract L =
     ((\<forall>ts t s p f. ExponentialSmoothing_fit L ts t s p = Some f \<longrightarrow> forecast_contract f) \<and>
      (\<forall>ts pdq f. ARIMA_fit L ts pdq = Some f \<longrightarrow> forecast_contract f))"

text \<open>Two sample libraries for concrete evaluation: one in which every fit raises, and
  one in which every fit succeeds with AIC 0 and forecasts the constant 7.\<close>

definition raising_lib :: statsmodels where
  "raising_lib =
     \<lparr> ExponentialSmoothing_fit = (\<lambda>ts t s p. None), ARIMA_fit = (\<lambda>ts pdq. None) \<rparr>"

definition constant_lib :: statsmodels where
  "constant_lib =
     (let f = \<lparr> aic = 0, forecast_steps = (\<lambda>n. Some (replicate (nat n) 7)) \<rparr>
      in \<lparr> ExponentialSmoothing_fit = (\<lambda>ts t s p. Some f), ARIMA_fit = (\<lambda>ts pdq. Some f) \<rparr>)"

section \<open>Anomaly detection\<close>

text \<open>
  The z-scores are floating-point values of a pandas series, and the code tests them with
  \<^verbatim>\<open>math.isnan\<close>: they are modelled with NaN and the infinities explicit. A division
  of pandas series does not raise on a zero divisor: it gives NaN for 0/0 and a signed
  infinity otherwise.
\<close>

datatype pyfloat = NaN | NegInf | Finite real | PosInf

definition float_div :: "real \<Rightarrow> real \<Rightarrow> pyfloat" where
  "float_div a b =
     (if b = 0 then (if a = 0 then NaN else if 0 < a then PosInf else NegInf)
      else Finite (a / b))"

definition isnan :: "pyfloat \<Rightarrow> bool" where
  "isnan z = (z = NaN)"

text \<open>\<^verbatim>\<open>abs(z) > t\<close>, \<^verbatim>\<open>z > 0\<close> and \<^verbatim>\<open>fillna(0)\<close> on such values; every
  comparison with NaN is false.\<close>

fun abs_gt :: "pyfloat \<Rightarrow> real \<Rightarrow> bool" where
  "abs_gt NaN t = False"
| "abs_gt NegInf t = True"
| "abs_gt PosInf t = True"
| "abs_gt (Finite v) t = (\<bar>v\<bar> > t)"

fun gt_zero :: "pyfloat \<Rightarrow> bool" where
  "gt_zero NaN = False"
| "gt_zero NegInf = False"
| "gt_zero PosInf = True"
| "gt_zero (Finite v) = (v > 0)"

fun fillna0 :: "pyfloat \<Rightarrow> pyfloat" where
  "fillna0 NaN = Finite 0"
| "fillna0 z = z"

text \<open>
  \<^verbatim>\<open>ts.rolling(window=w)\<close>: position \<open>i\<close> sees the \<open>w\<close> values ending at \<open>i\<close>, and
  has no value (NaN) while fewer than \<open>w\<close> are available. \<^verbatim>\<open>.mean()\<close> is the mean
  of the window, \<^verbatim>\<open>.std()\<close> the sample standard deviation (\<^verbatim>\<open>ddof = 1\<close>), which is
  NaN on a window of one value. Both are pandas operations, modelled by their definition.
\<close>

definition rolling_window :: "real list \<Rightarrow> nat \<Rightarrow> nat \<Rightarrow> real list option" where
  "rolling_window ts w i =
     (if i + 1 < w then None else Some (take w (drop (i + 1 - w) ts)))"

definition rolling_mean :: "real list \<Rightarrow> nat \<Rightarrow> nat \<Rightarrow> real option" where
  "rolling_mean ts w i = map_option np_mean (rolling_window ts w i)"

definition sample_std :: "real list \<Rightarrow> real option" where
  "sample_std xs =
     (if length xs < 2 then None
      else Some (sqrt (sum_list (map (\<lambda>v. (v - np_mean xs)\<^sup>2) xs) / real (length xs - 1))))"

definition rolling_std :: "real list \<Rightarrow> nat \<Rightarrow> nat \<Rightarrow> real option" where
  "rolling_std ts w i = Option.bind (rolling_window ts w i) sample_std"

definition z_score_at :: "real list \<Rightarrow> nat \<Rightarrow> nat \<Rightarrow> pyfloat" where
  "z_score_at ts w i =
     (case (rolling_mean ts w i, rolling_std ts w i) of
        (Some m, Some s) \<Rightarrow> float_div (ts ! i - m) s
      | _ \<Rightarrow> NaN)"

definition raw_z_scores :: "real list \<Rightarrow> pyfloat list" where
  "raw_z_scores ts =
     (let window = min 12 (length ts div 3)
      in map (z_score_at ts window) [0..<length ts])"

text \<open>The entries of \<^verbatim>\<open>anomalies\<close> (keys \<^verbatim>\<open>index\<close>, \<^verbatim>\<open>value\<close>, \<^verbatim>\<open>z_score\<close>,
  \<^verbatim>\<open>type\<close>) and the result dictionary.\<close>

record anomaly =
  index :: nat
  val :: real
  z_score :: pyfloat
  anomaly_type :: string

record anomaly_result =
  anomalies :: "anomaly list"
  anomaly_indices :: "nat list"
  anomaly_rate :: real
  threshold :: real
  z_scores :: "pyfloat list"

text \<open>The loop \<^verbatim>\<open>for i, z_score in enumerate(z_scores)\<close>, appending to
  \<^verbatim>\<open>anomalies\<close> and \<^verbatim>\<open>anomaly_indices\<close> in the order of the positions.\<close>

fun anomaly_loop ::
    "real list \<Rightarrow> real \<Rightarrow> (nat \<times> pyfloat) list \<Rightarrow> anomaly list \<times> nat list" where
  "anomaly_loop data t [] = ([], [])"
| "anomaly_loop data t ((i, z) # rest) =
     (let (found, idx) = anomaly_loop data t rest
      in if \<not> isnan z \<and> abs_gt z t
         then (\<lparr> index = i, val = data ! i, z_score = z,
                  anomaly_type = (if gt_zero z then ''high'' else ''low'') \<rparr> # found,
               i # idx)
         else (found, idx))"

definition detect_anomalies :: "real list \<Rightarrow> real \<Rightarrow> error + anomaly_result" where
  "detect_anomalies data t =
     (if data = [] \<or> length data < 3
      then Inl (Message ''Insufficient data for anomaly detection'')
      else
        let zs = raw_z_scores data;
            (found, idx) = anomaly_loop data t (enumerate 0 zs)
        in Inr \<lparr> anomalies = found, anomaly_indices = idx,
                 anomaly_rate = real (length found) / real (length data),
                 threshold = t,
                 z_scores = map fillna0 zs \<rparr>)"

text \<open>The test of the loop, for the statements below.\<close>

definition flagged :: "pyfloat \<Rightarrow> real \<Rightarrow> bool" where
  "flagged z t = (\<not> isnan z \<and> abs_gt z t)"

section \<open>Change-point detection\<close>

text \<open>\<^verbatim>\<open>np.cumsum\<close>, as the running sum it is.\<close>

fun cumsum_from :: "real \<Rightarrow> real list \<Rightarrow> real list" where
  "cumsum_from acc [] = []"
| "cumsum_from acc (x # xs) = (acc + x) # cumsum_from (acc + x) xs"

definition np_cumsum :: "real list \<Rightarrow> real list" where
  "np_cumsum xs = cumsum_from 0 xs"

text \<open>The entries of \<^verbatim>\<open>change_points\<close> (keys \<^verbatim>\<open>index\<close>, \<^verbatim>\<open>value\<close>,
  \<^verbatim>\<open>cumulative_sum\<close>) and the result dictionary (keys \<^verbatim>\<open>change_points\<close>,
  \<^verbatim>\<open>cumulative_sum\<close>, \<^verbatim>\<open>threshold\<close>); the field names carry a prefix where a name
  is taken already.\<close>

record change_point =
  cp_index :: nat
  cp_value :: real
  cp_cumulative_sum :: real

record change_point_result =
  change_points :: "change_point list"
  cumulative_sum :: "real list"
  cp_threshold :: real

definition deviation_of :: "real list \<Rightarrow> real list" where
  "deviation_of data = map (\<lambda>v. v - np_mean data) data"

text \<open>The first loop: every position \<open>i\<close> from 1 on whose absolute cumulative sum
  exceeds \<^verbatim>\<open>threshold * np.std(deviation)\<close>, in the order of the positions.\<close>

definition candidates :: "real list \<Rightarrow> real \<Rightarrow> change_point list" where
  "candidates data t =
     (let deviation = deviation_of data;
          cs = np_cumsum deviation
      in map (\<lambda>i. \<lparr> cp_index = i, cp_value = data ! i, cp_cumulative_sum = cs ! i \<rparr>)
           (filter (\<lambda>i. \<bar>cs ! i\<bar> > t * np_std deviation) [1..<length cs]))"

text \<open>\<^verbatim>\<open>max(current_group, key=lambda x: abs(x['cumulative_sum']))\<close> on the group
  \<open>c # cs\<close>: Python's \<^verbatim>\<open>max\<close> keeps the first element whose key is maximal.\<close>

definition max_abs :: "change_point \<Rightarrow> change_point list \<Rightarrow> change_point" where
  "max_abs c cs =
     foldl (\<lambda>best x. if \<bar>cp_cumulative_sum x\<bar> > \<bar>cp_cumulative_sum best\<bar> then x else best)
       c cs"

text \<open>The test \<^verbatim>\<open>cp['index'] - current_group[-1]['index'] < 5\<close>.\<close>

definition near :: "change_point \<Rightarrow> change_point \<Rightarrow> bool" where
  "near a b = (int (cp_index b) - int (cp_index a) < 5)"

text \<open>The grouping loop. The current group is never empty (it starts as
  \<^verbatim>\<open>[change_points[0]]\<close> and is reset to \<^verbatim>\<open>[cp]\<close>), so it is carried as its first
  element and the rest; the representatives are returned in the order they are appended.\<close>

fun grouping :: "change_point \<Rightarrow> change_point list \<Rightarrow> change_point list \<Rightarrow> change_point list" where
  "grouping c0 cs [] = [max_abs c0 cs]"
| "grouping c0 cs (cp # rest) =
     (if near (last (c0 # cs)) cp
      then grouping c0 (cs @ [cp]) rest
      else max_abs c0 cs # grouping cp [] rest)"

definition group_change_points :: "change_point list \<Rightarrow> change_point list" where
  "group_change_points cps = (case cps of [] \<Rightarrow> [] | c # rest \<Rightarrow> grouping c [] rest)"

definition detect_change_points :: "real list \<Rightarrow> real \<Rightarrow> error + change_point_result" where
  "detect_change_points data t =
     (if data = [] \<or> length data < 5
      then Inl (Message ''Insufficient data for change point detection'')
      else
        Inr \<lparr> change_points = group_change_points (candidates data t),
              cumulative_sum = np_cumsum (deviation_of data),
              cp_threshold = t \<rparr>)"

text \<open>
  The clustering as the specification words it, for comparison with the loop: the
  candidates are cut into clusters wherever two neighbours are 5 or more positions apart,
  and a cluster's representative is its first member of maximal absolute cumulative sum.
\<close>

fun clusters :: "change_point list \<Rightarrow> change_point list list" where
  "clusters [] = []"
| "clusters [c] = [[c]]"
| "clusters (c # d # rest) =
     (if near c d
      then (case clusters (d # rest) of [] \<Rightarrow> [[c]] | g # gs \<Rightarrow> (c # g) # gs)
      else [c] # clusters (d # rest))"

definition representative :: "change_point list \<Rightarrow> change_point" where
  "representative g = max_abs (hd g) (tl g)"

definition first_max_abs :: "change_point list \<Rightarrow> change_point \<Rightarrow> bool" where
  "first_max_abs g m =
     (\<exists>k < length g. m = g ! k \<and>
        (\<forall>j < length g. \<bar>cp_cumulative_sum (g ! j)\<bar> \<le> \<bar>cp_cumulative_sum m\<bar>) \<and>
        (\<forall>j < k. \<bar>cp_cumulative_sum (g ! j)\<bar> < \<bar>cp_cumulative_sum m\<bar>))"

section \<open>Seasonal decomposition\<close>

text \<open>
  \<^verbatim>\<open>seasonal_decompose\<close> comes from statsmodels, which is not code of the repository:
  the model takes it as a parameter. A call either raises (\<open>None\<close>) or returns the trend,
  the seasonal component and the residual; trend and residual have NaN (\<open>None\<close>) at the
  edges of the series, which \<^verbatim>\<open>dropna()\<close> removes.
\<close>

record DecomposeResult =
  dec_trend :: "real option list"
  dec_seasonal :: "real list"
  dec_resid :: "real option list"

type_synonym seasonal_decompose = "real list \<Rightarrow> string \<Rightarrow> nat \<Rightarrow> DecomposeResult option"

fun dropna :: "real option list \<Rightarrow> real list" where
  "dropna [] = []"
| "dropna (None # xs) = dropna xs"
| "dropna (Some v # xs) = v # dropna xs"

text \<open>\<^verbatim>\<open>score < best_score\<close> on floating-point values: \<^verbatim>\<open>best_score\<close> starts as
  \<^verbatim>\<open>float('inf')\<close>, and the quotient of two numpy values is infinite on a zero divisor.\<close>

fun float_lt :: "pyfloat \<Rightarrow> pyfloat \<Rightarrow> bool" where
  "float_lt NaN b = False"
| "float_lt a NaN = False"
| "float_lt PosInf b = False"
| "float_lt a NegInf = False"
| "float_lt NegInf b = True"
| "float_lt a PosInf = True"
| "float_lt (Finite a) (Finite b) = (a < b)"

text \<open>One round of the loop \<^verbatim>\<open>for p in periods_to_try\<close> of \<^verbatim>\<open>detect_seasonality\<close>, on
  the pair of \<^verbatim>\<open>best_period\<close> and \<^verbatim>\<open>best_score\<close>; a candidate whose decomposition raises
  is skipped.\<close>

definition try_period ::
    "seasonal_decompose \<Rightarrow> real list \<Rightarrow> nat \<times> pyfloat \<Rightarrow> nat \<Rightarrow> nat \<times> pyfloat" where
  "try_period sd ts best p =
     (if length ts \<ge> 2 * p
      then (case sd ts ''additive'' p of
              None \<Rightarrow> best
            | Some decomposition \<Rightarrow>
                let seasonal = dec_seasonal decomposition;
                    residual = dropna (dec_resid decomposition)
                in if length residual > 0
                   then
                     let seasonal_var = np_var seasonal;
                         residual_var = np_var residual
                     in if residual_var > 0
                        then
                          let score = float_div residual_var seasonal_var
                          in if float_lt score (snd best) then (p, score) else best
                        else best
                   else best)
      else best)"

definition periods_to_try :: "nat list" where
  "periods_to_try = [12, 4]"

definition auto_period :: "seasonal_decompose \<Rightarrow> real list \<Rightarrow> nat" where
  "auto_period sd ts = fst (foldl (try_period sd ts) (12, PosInf) periods_to_try)"

text \<open>The result dictionaries of \<^verbatim>\<open>detect_seasonality\<close> and
  \<^verbatim>\<open>decompose_time_series\<close>; the fields of the former carry a prefix where the names
  coincide.\<close>

record seasonality_result =
  ds_period :: nat
  seasonal_strength :: real
  significant_seasonality :: bool
  seasonal_pattern :: "(nat \<times> real) list"
  ds_trend :: "real list"
  ds_seasonal :: "real list"
  ds_residual :: "real list"

definition detect_seasonality ::
    "seasonal_decompose \<Rightarrow> real list \<Rightarrow> nat option \<Rightarrow> error + seasonality_result" where
  "detect_seasonality sd data period =
     (if data = [] \<or> length data < 24
      then Inl (Message ''Insufficient data for seasonality analysis'')
      else
        let p = (case period of None \<Rightarrow> auto_period sd data | Some q \<Rightarrow> q)
        in case sd data ''additive'' p of
             None \<Rightarrow> Inl (Raised LibraryError)
           | Some decomposition \<Rightarrow>
               let seasonal = dec_seasonal decomposition;
                   residual = dropna (dec_resid decomposition);
                   strength =
                     (if length residual > 0
                      then (if np_var residual > 0
                            then np_var seasonal / (np_var seasonal + np_var residual)
                            else 0)
                      else 0)
               in Inr \<lparr> ds_period = p,
                        seasonal_strength = strength,
                        significant_seasonality = (strength > 0.6),
                        seasonal_pattern =
                          map (\<lambda>i. (i, seasonal ! i))
                            (filter (\<lambda>i. i < length seasonal) [0..<p]),
                        ds_trend = dropna (dec_trend decomposition),
                        ds_seasonal = seasonal,
                        ds_residual = residual \<rparr>)"

record decompose_result =
  trend :: "real list"
  seasonal :: "real list"
  residual :: "real list"
  period :: nat
  model :: string

definition decompose_time_series ::
    "seasonal_decompose \<Rightarrow> real list \<Rightarrow> nat option \<Rightarrow> string \<Rightarrow> error + decompose_result" where
  "decompose_time_series sd data period_opt m =
     (if data = [] \<or> length data < 24
      then Inl (Message ''Insufficient data for time series decomposition'')
      else
        let p = (case period_opt of None \<Rightarrow> 12 | Some q \<Rightarrow> q)
        in case sd data m p of
             None \<Rightarrow> Inl (Raised LibraryError)
           | Some decomposition \<Rightarrow>
               Inr \<lparr> trend = dropna (dec_trend decomposition),
                     seasonal = dec_seasonal decomposition,
                     residual = dropna (dec_resid decomposition),
                     period = p,
                     model = m \<rparr>)"

text \<open>
  The selection as the specification words it, for comparison with the loop: a
  candidate's ratio of residual variance to seasonal variance, where the code computes a
  finite one, and the candidate of the lowest ratio, 12 when none is computable or on a
  tie.
\<close>

definition ratio :: "seasonal_decompose \<Rightarrow> real list \<Rightarrow> nat \<Rightarrow> real option" where
  "ratio sd ts p =
     (case sd ts ''additive'' p of
        None \<Rightarrow> None
      | Some d \<Rightarrow>
          if dropna (dec_resid d) \<noteq> [] \<and> 0 < np_var (dropna (dec_resid d)) \<and>
             np_var (dec_seasonal d) \<noteq> 0
          then Some (np_var (dropna (dec_resid d)) / np_var (dec_seasonal d))
          else None)"

definition lowest_ratio_period :: "seasonal_decompose \<Rightarrow> real list \<Rightarrow> nat" where
  "lowest_ratio_period sd ts =
     (case ratio sd ts 4 of
        None \<Rightarrow> 12
      | Some r4 \<Rightarrow>
          (case ratio sd ts 12 of
             None \<Rightarrow> 4
           | Some r12 \<Rightarrow> if r4 < r12 then 4 else 12))"

text \<open>
  The classical decomposition by moving averages, which is what \<^verbatim>\<open>seasonal_decompose\<close>
  computes with the arguments the two callers pass (\<^verbatim>\<open>model\<close> and \<^verbatim>\<open>period\<close>, every
  other argument at its default), for evaluation at concrete series. The trend is the
  centred moving average of one period (half weights at both ends when the period is
  even), NaN where the window leaves the series; the seasonal component is the mean of
  the detrended values of each position of the period, NaN skipped, centred on the mean
  of these means and tiled over the series; the residual is what is left. A model name
  starting with \<^verbatim>\<open>m\<close> is multiplicative: quotients where the additive model has differences,
  and a series with a value that is not positive raises. A series shorter than two
  periods raises, and so does period 0.
\<close>

definition startswith_m :: "string \<Rightarrow> bool" where
  "startswith_m m = (case m of [] \<Rightarrow> False | c # cs \<Rightarrow> c = CHR ''m'')"

definition moving_average :: "nat \<Rightarrow> real list \<Rightarrow> real option list" where
  "moving_average p x =
     map (\<lambda>i. if p div 2 \<le> i \<and> i + p div 2 < length x
              then Some ((if even p
                          then x ! (i - p div 2) / 2
                               + sum_list (take (p - 1) (drop (i - p div 2 + 1) x))
                               + x ! (i + p div 2) / 2
                          else sum_list (take p (drop (i - p div 2) x))) / real p)
              else None)
       [0..<length x]"

definition detrend :: "bool \<Rightarrow> real list \<Rightarrow> real option list \<Rightarrow> real option list" where
  "detrend mul x tr = map2 (\<lambda>v t. map_option (\<lambda>u. if mul then v / u else v - u) t) x tr"

definition period_average :: "nat \<Rightarrow> real option list \<Rightarrow> nat \<Rightarrow> real" where
  "period_average p detrended k =
     np_mean (dropna (map (\<lambda>i. detrended ! i)
        (filter (\<lambda>i. i mod p = k) [0..<length detrended])))"

definition classical_decompose :: seasonal_decompose where
  "classical_decompose x m p =
     (if p = 0 \<or> length x < 2 * p \<or> (startswith_m m \<and> list_ex (\<lambda>v. v \<le> 0) x)
      then None
      else
        let mul = startswith_m m;
            tr = moving_average p x;
            detrended = detrend mul x tr;
            averages = map (period_average p detrended) [0..<p];
            centred = map (\<lambda>a. if mul then a / np_mean averages else a - np_mean averages)
                        averages;
            seas = map (\<lambda>i. centred ! (i mod p)) [0..<length x]
        in Some \<lparr> dec_trend = tr,
                   dec_seasonal = seas,
                   dec_resid =
                     (if mul
                      then map2 (\<lambda>(v, s) t. map_option (\<lambda>u. v / s / u) t) (zip x seas) tr
                      else map2 (\<lambda>d s. map_option (\<lambda>u. u - s) d) detrended seas) \<rparr>)"

text \<open>A series of 25 points with a peak every fourth point and one disturbance.\<close>

definition series25 :: "real list" where
  "series25 = [0, 4, 0, 0, 0, 4, 1, 0, 0, 4, 0, 0, 0, 4, 0, 0, 0, 4, 0, 0, 0, 4, 0, 0, 0]"

section \<open>Properties of trend analysis\<close>

text \<open>
  Claim C3, as the code has it: on an input of length below 2 (the empty list included)
  \<open>analyze_trend\<close> returns the error dictionary
  \<^verbatim>\<open>{'error': 'Insufficient data for trend analysis'}\<close>. It returns normally (no exception
  escapes), but the result carries no slope, intercept or percentage change.
\<close>

theorem analyze_trend_short:
  "length data < 2 \<Longrightarrow>
     analyze_trend data = Inl (Message ''Insufficient data for trend analysis'')"
  by (simp add: analyze_trend_def)

theorem analyze_trend_short_witness:
  "length [5::real] < 2 \<and>
   analyze_trend [5] = Inl (Message ''Insufficient data for trend analysis'')"
  using analyze_trend_short [of "[5]"] by simp

text \<open>The claim as the specification words it (a neutral result with slope, intercept
  and percentage change all zero) fails: the one-point series gives no trend result.\<close>

theorem analyze_trend_short_counterexample:
  "analyze_trend [5] \<noteq>
     Inr \<lparr> slope = 0, intercept = 0, r_squared = 0, direction = ''stable'',
           percentage_change = 0, start_value = 5, end_value = 5, data_points = 1 \<rparr>
   \<and> isl (analyze_trend [5])"
  by (simp add: analyze_trend_def)

lemma sum_list_arange_map2:
  assumes "length ys = n"
  shows "sum_list (map2 f (np_arange n) ys) = (\<Sum>i<n. f (real i) (ys ! i))"
proof -
  have "map2 f (np_arange n) ys = map (\<lambda>i. f (real i) (ys ! i)) [0..<n]"
    using assms by (intro nth_equalityI) (simp_all add: np_arange_def)
  then show ?thesis
    by (simp add: interv_sum_list_conv_sum_set_nat atLeast0LessThan)
qed

lemma sum_list_arange_map:
  "sum_list (map g (np_arange n)) = (\<Sum>i<n. g (real i))"
  by (simp add: np_arange_def comp_def interv_sum_list_conv_sum_set_nat atLeast0LessThan)

lemma sum_real_lessThan: "(\<Sum>i<n. real i) = real n * (real n - 1) / 2"
  by (induction n) (simp_all add: field_simps)

lemma np_mean_arange: "0 < n \<Longrightarrow> np_mean (np_arange n) = (real n - 1) / 2"
  using sum_list_arange_map [of "\<lambda>v. v" n]
  by (simp add: np_mean_def sum_real_lessThan np_arange_def)

lemma sxx_pos:
  assumes "2 \<le> n"
  shows "0 < (\<Sum>i<n. (real i - (real n - 1) / 2)\<^sup>2)"
proof (rule sum_pos2 [where i = 0])
  show "0 < (real 0 - (real n - 1) / 2)\<^sup>2" using assms by simp
qed (use assms in auto)

lemma sxy_pos:
  fixes ys :: "real list"
  assumes n: "2 \<le> n" and len: "length ys = n" and srt: "sorted ys"
    and rise: "ys ! 0 < ys ! (n - 1)"
  shows "0 < (\<Sum>i<n. (real i - (real n - 1) / 2) * (ys ! i - my))"
proof -
  define m where "m = (real n - 1) / 2"
  define k where "k = (n - 1) div 2"
  define c where "c = ys ! k"
  have mpos: "0 < m" using n by (simp add: m_def)
  have k_lt: "k < n" using n by (simp add: k_def)
  have "(\<Sum>i<n. (real i - m)) = (\<Sum>i<n. real i) - real n * m"
    by (simp add: sum_subtractf)
  also have "\<dots> = 0"
    by (simp add: sum_real_lessThan m_def field_simps)
  finally have centred: "(\<Sum>i<n. (real i - m)) = 0" .
  have split: "(\<Sum>i<n. (real i - m) * (ys ! i - my)) =
      (\<Sum>i<n. (real i - m) * (ys ! i - c)) + (c - my) * (\<Sum>i<n. (real i - m))"
    by (simp add: sum_distrib_left sum.distrib [symmetric] algebra_simps)
  have nonneg: "0 \<le> (real i - m) * (ys ! i - c)" if "i < n" for i
  proof (cases "m \<le> real i")
    case True
    then have "real n \<le> real (2 * i + 1)" unfolding m_def by simp
    then have "n \<le> 2 * i + 1" by (simp only: of_nat_le_iff)
    then have "k \<le> i" unfolding k_def by arith
    then have "c \<le> ys ! i"
      unfolding c_def using srt that len by (simp add: sorted_nth_mono)
    with True show ?thesis by simp
  next
    case False
    then have "real (2 * i + 1) < real n" unfolding m_def by simp
    then have "2 * i + 1 < n" by (simp only: of_nat_less_iff)
    then have "i \<le> k" unfolding k_def by arith
    then have "ys ! i \<le> c"
      unfolding c_def using srt k_lt len by (simp add: sorted_nth_mono)
    with False show ?thesis by (simp add: mult_nonpos_nonpos)
  qed
  have "ys ! 0 < c \<or> c < ys ! (n - 1)" using rise by linarith
  then have "0 < (\<Sum>i<n. (real i - m) * (ys ! i - c))"
  proof
    assume lo: "ys ! 0 < c"
    show ?thesis
    proof (rule sum_pos2 [where i = 0])
      show "0 < (real 0 - m) * (ys ! 0 - c)"
        using lo mpos by (simp add: mult_pos_neg)
    qed (use n nonneg in auto)
  next
    assume hi: "c < ys ! (n - 1)"
    have "real (n - 1) - m = m" using n by (simp add: m_def of_nat_diff field_simps)
    then have "0 < (real (n - 1) - m) * (ys ! (n - 1) - c)"
      using hi mpos by simp
    then show ?thesis
      by (rule sum_pos2 [where i = "n - 1", rotated 2]) (use n nonneg in auto)
  qed
  with split centred show ?thesis by (simp add: m_def)
qed

lemma polyfit_slope_pos:
  fixes data :: "real list"
  assumes "2 \<le> length data" and "sorted data" and "hd data < last data"
  shows "0 < fst (np_polyfit1 (np_arange (length data)) data)"
proof -
  let ?n = "length data"
  have ne: "data \<noteq> []" using assms(1) by auto
  have rise: "data ! 0 < data ! (?n - 1)"
    using assms(3) ne by (simp add: hd_conv_nth last_conv_nth)
  have "0 < ?n" using assms(1) by linarith
  then have mx: "np_mean (np_arange ?n) = (real ?n - 1) / 2"
    by (rule np_mean_arange)
  have "0 < (\<Sum>i<?n. (real i - (real ?n - 1) / 2) * (data ! i - np_mean data))"
    using sxy_pos [OF assms(1) refl assms(2) rise] .
  moreover have "0 < (\<Sum>i<?n. (real i - (real ?n - 1) / 2)\<^sup>2)"
    using sxx_pos [OF assms(1)] .
  ultimately show ?thesis
    by (simp add: np_polyfit1_def Let_def mx sum_list_arange_map2 sum_list_arange_map)
qed

lemma analyze_trend_ok:
  assumes "2 \<le> length data" and "hd data \<noteq> 0"
  shows "\<exists>r. analyze_trend data = Inr r \<and>
           slope r = fst (np_polyfit1 (np_arange (length data)) data) \<and>
           direction r = direction_of (slope r) \<and>
           percentage_change r = ((last data - hd data) / hd data) * 100"
proof -
  have ne: "data \<noteq> []" using assms(1) by auto
  have "percentage_change_of data = Inr (((last data - hd data) / hd data) * 100)"
    using assms by (simp add: percentage_change_of_def truediv_def)
  then show ?thesis
    using assms(1) ne by (simp add: analyze_trend_def Let_def case_prod_beta)
qed

text \<open>
  Claim C8, as the code has it: for every non-decreasing series of at least two points
  that rises from its first to its last value (every strictly increasing series is one),
  and whose first value is not 0, \<open>analyze_trend\<close> returns a positive slope. The
  direction is \<^verbatim>\<open>'increasing'\<close> only from a slope of 0.01 on; below that threshold
  it is \<^verbatim>\<open>'stable'\<close>.
\<close>

theorem analyze_trend_increasing:
  assumes "2 \<le> length data" and "sorted data" and "hd data < last data"
    and "hd data \<noteq> 0"
  shows "\<exists>r. analyze_trend data = Inr r \<and> 0 < slope r \<and>
           direction r = (if slope r < 0.01 then ''stable'' else ''increasing'')"
proof -
  from analyze_trend_ok [OF assms(1,4)] obtain r where r: "analyze_trend data = Inr r"
    "slope r = fst (np_polyfit1 (np_arange (length data)) data)"
    "direction r = direction_of (slope r)" by blast
  have "0 < slope r" using polyfit_slope_pos [OF assms(1-3)] r(2) by simp
  then show ?thesis using r by (auto simp: direction_of_def)
qed

lemma np_arange_2: "np_arange (Suc (Suc 0)) = [0, 1]"
  by (simp add: np_arange_def upt_rec)

lemma polyfit_2: "np_polyfit1 [0, 1] [a, b] = (b - a, a)"
  by (simp add: np_polyfit1_def np_mean_def Let_def power2_eq_square field_simps)

text \<open>A strictly increasing series with a slope below the threshold: the direction
  reported is \<^verbatim>\<open>'stable'\<close>, not \<^verbatim>\<open>'increasing'\<close>.\<close>

theorem analyze_trend_increasing_counterexample:
  "analyze_trend [1, 1001/1000] =
     Inr \<lparr> slope = 1/1000, intercept = 1, r_squared = 1, direction = ''stable'',
           percentage_change = 1/10, start_value = 1, end_value = 1001/1000,
           data_points = 2 \<rparr>"
  by (simp add: analyze_trend_def polyfit_2 np_arange_2 percentage_change_of_def
      truediv_def direction_of_def np_mean_def power2_eq_square Let_def)

theorem analyze_trend_increasing_witness:
  "2 \<le> length [1, 2::real] \<and> sorted [1, 2::real] \<and> hd [1, 2::real] < last [1, 2] \<and>
   hd [1, 2::real] \<noteq> 0 \<and>
   analyze_trend [1, 2] =
     Inr \<lparr> slope = 1, intercept = 1, r_squared = 1, direction = ''increasing'',
           percentage_change = 100, start_value = 1, end_value = 2, data_points = 2 \<rparr>"
  using analyze_trend_increasing [of "[1, 2]"]
  by (simp add: analyze_trend_def polyfit_2 np_arange_2 percentage_change_of_def
      truediv_def direction_of_def np_mean_def power2_eq_square Let_def)

text \<open>
  Claim C2: the percentage change is \<open>(last - first) / first * 100\<close> when the first
  value is not 0 (lemma \<open>analyze_trend_ok\<close>). When the first value is 0 the division
  raises, the handler catches it, and the result is the error dictionary, not a
  percentage change of 0.
\<close>

theorem analyze_trend_zero_first: "analyze_trend [0, 5] = Inl (Raised ZeroDivisionError)"
  by (simp add: analyze_trend_def polyfit_2 np_arange_2 percentage_change_of_def
      truediv_def Let_def)

section \<open>Properties of forecasting\<close>

text \<open>
  Claim C10: a method string other than \<^verbatim>\<open>'ets'\<close>, \<^verbatim>\<open>'arima'\<close> and \<^verbatim>\<open>'linear'\<close> is
  not an error for \<open>predict\<close>: the result is exactly the result for \<^verbatim>\<open>'ets'\<close>, for
  every series and every number of periods.
\<close>

theorem predict_unknown_method:
  "method \<noteq> ''ets'' \<Longrightarrow> method \<noteq> ''arima'' \<Longrightarrow> method \<noteq> ''linear'' \<Longrightarrow>
     predict L data periods method = predict L data periods ''ets''"
  by (simp add: predict_def)

theorem predict_unknown_method_witness:
  "''naive'' \<noteq> ''ets'' \<and> ''naive'' \<noteq> ''arima'' \<and> ''naive'' \<noteq> ''linear'' \<and>
   predict constant_lib [1, 2, 3] 2 ''naive'' = predict constant_lib [1, 2, 3] 2 ''ets'' \<and>
   predict constant_lib [1, 2, 3] 2 ''ets'' = [7, 7]"
  using predict_unknown_method [of "''naive''" constant_lib "[1, 2, 3]" 2]
  by (simp add: predict_def predict_ets_def ets_search_def ets_models_def keep_best_def
      constant_lib_def Let_def numeral_2_eq_2)

lemma keep_best_cases: "keep_best best cand = best \<or> keep_best best cand = cand"
  by (auto simp: keep_best_def split: option.splits)

lemma foldl_keep_best:
  "foldl (\<lambda>b x. keep_best b (g x)) b0 xs = Some f \<Longrightarrow>
     b0 = Some f \<or> (\<exists>x \<in> set xs. g x = Some f)"
proof (induction xs arbitrary: b0)
  case Nil
  then show ?case by simp
next
  case (Cons x xs)
  from Cons.prems have "foldl (\<lambda>b x. keep_best b (g x)) (keep_best b0 (g x)) xs = Some f"
    by simp
  from Cons.IH [OF this] keep_best_cases [of b0 "g x"] show ?case
    by auto
qed

lemma ets_search_fit:
  assumes "ets_search L ts = Some f"
  shows "\<exists>t s p. ExponentialSmoothing_fit L ts t s p = Some f"
proof -
  have "foldl (\<lambda>b x. keep_best b
          (ExponentialSmoothing_fit L ts (Some (fst x)) (Some (snd x))
             (Some (min 12 (length ts div 2))))) None ets_models = Some f"
    using assms unfolding ets_search_def case_prod_unfold by simp
  from foldl_keep_best [OF this] show ?thesis
    by auto
qed

lemma arima_search_fit:
  assumes "arima_search L ts = Some f"
  shows "\<exists>pdq. ARIMA_fit L ts pdq = Some f"
  using foldl_keep_best [of "ARIMA_fit L ts" None arima_params f] assms
  by (auto simp: arima_search_def)

lemma length_predict_linear: "length (predict_linear ts periods) = nat periods"
  by (simp add: predict_linear_def list_times_def Let_def case_prod_beta)

lemma length_predict_ets:
  assumes "statsmodels_contract L"
  shows "length (predict_ets L ts periods) = nat periods"
proof -
  have c: "forecast_contract b" if "ExponentialSmoothing_fit L ts t s p = Some b" for t s p b
    using assms that unfolding statsmodels_contract_def by blast
  show ?thesis
  proof (cases "ets_search L ts")
    case None
    then show ?thesis
      using c [of "Some ''add''" None None]
      by (auto simp: predict_ets_def length_predict_linear forecast_contract_def
          split: option.splits)
  next
    case (Some b)
    then obtain t s p where "ExponentialSmoothing_fit L ts t s p = Some b"
      using ets_search_fit by blast
    then have "forecast_contract b" by (rule c)
    with Some show ?thesis
      by (auto simp: predict_ets_def length_predict_linear forecast_contract_def
          split: option.splits)
  qed
qed

lemma length_predict_arima:
  assumes "statsmodels_contract L"
  shows "length (predict_arima L ts periods) = nat periods"
proof -
  have c: "forecast_contract b" if "ARIMA_fit L ts pdq = Some b" for pdq b
    using assms that unfolding statsmodels_contract_def by blast
  show ?thesis
  proof (cases "arima_search L ts")
    case None
    then show ?thesis
      using c [of "(1, 1, 1)"]
      by (auto simp: predict_arima_def length_predict_linear forecast_contract_def
          split: option.splits)
  next
    case (Some b)
    then obtain pdq where "ARIMA_fit L ts pdq = Some b"
      using arima_search_fit by blast
    then have "forecast_contract b" by (rule c)
    with Some show ?thesis
      by (auto simp: predict_arima_def length_predict_linear forecast_contract_def
          split: option.splits)
  qed
qed

lemma length_predict:
  "statsmodels_contract L \<Longrightarrow> length (predict L data periods method) = nat periods"
  by (simp add: predict_def list_times_def length_predict_ets length_predict_arima
      length_predict_linear)

text \<open>
  Claim C4: for every series, every \<open>periods > 0\<close> and each supported method
  (\<^verbatim>\<open>'ets'\<close>, \<^verbatim>\<open>'arima'\<close>, \<^verbatim>\<open>'linear'\<close>), the list returned by \<open>predict\<close> has
  exactly \<open>periods\<close> elements, given that a statsmodels forecast of \<open>n\<close> steps has
  \<open>n\<close> values.
\<close>

theorem predict_length:
  assumes "statsmodels_contract L" and "0 < periods"
    and "method = ''ets'' \<or> method = ''arima'' \<or> method = ''linear''"
  shows "int (length (predict L data periods method)) = periods"
  using assms(2) length_predict [OF assms(1)] by simp

lemma constant_lib_contract: "statsmodels_contract constant_lib"
  by (simp add: statsmodels_contract_def forecast_contract_def constant_lib_def Let_def)

lemma raising_lib_contract: "statsmodels_contract raising_lib"
  by (simp add: statsmodels_contract_def raising_lib_def)

lemma polyfit_123: "np_polyfit1 (np_arange 3) [1, 2, 3] = (1, 1)"
  by (simp add: np_polyfit1_def np_arange_def np_mean_def Let_def upt_rec power2_eq_square)

lemma predict_linear_123: "predict_linear [1, 2, 3] 2 = [4, 5]"
  by (simp add: predict_linear_def polyfit_123 upto_rec1 numeral_3_eq_3 [symmetric])


theorem predict_length_witness:
  "statsmodels_contract raising_lib \<and> (0::int) < 2 \<and>
   int (length (predict raising_lib [1, 2, 3] 2 ''arima'')) = 2 \<and>
   predict raising_lib [1, 2, 3] 2 ''linear'' = [4, 5]"
  using predict_length [OF raising_lib_contract, of 2 "''arima''" "[1, 2, 3]"]
    raising_lib_contract
  by (simp add: predict_def predict_linear_123)

lemma predict_linear_nonneg: "v \<in> set (predict_linear ts periods) \<Longrightarrow> 0 \<le> v"
proof (cases "length ts < 2")
  case True
  assume "v \<in> set (predict_linear ts periods)"
  with True show ?thesis
    by (simp add: predict_linear_def list_times_def split: if_splits)
next
  case False
  assume "v \<in> set (predict_linear ts periods)"
  with False obtain w where "v = max 0 w"
    by (auto simp: predict_linear_def Let_def case_prod_beta)
  then show ?thesis by simp
qed

lemma predict_ets_nonneg: "v \<in> set (predict_ets L ts periods) \<Longrightarrow> 0 \<le> v"
  by (auto simp: predict_ets_def Let_def dest: predict_linear_nonneg split: option.splits)

lemma predict_arima_nonneg: "v \<in> set (predict_arima L ts periods) \<Longrightarrow> 0 \<le> v"
  by (auto simp: predict_arima_def Let_def dest: predict_linear_nonneg split: option.splits)

lemma predict_nonneg: "v \<in> set (predict L data periods method) \<Longrightarrow> 0 \<le> v"
  by (auto simp: predict_def list_times_def
      dest: predict_linear_nonneg predict_ets_nonneg predict_arima_nonneg split: if_splits)

lemma lower_bound_nonneg:
  "v \<in> set (lower_bound (forecast_with_intervals L data periods alpha method)) \<Longrightarrow> 0 \<le> v"
  by (auto simp: forecast_with_intervals_def list_times_def Let_def set_zip split: if_splits)

text \<open>
  Claim C5: for every series of non-negative values, every \<open>periods > 0\<close> and every
  method, every point value returned by \<open>predict\<close> (which is the \<open>forecast\<close> field of
  \<open>forecast_with_intervals\<close>) and every element of \<open>lower_bound\<close> is at least 0.
  Nothing is assumed of the values that statsmodels forecasts: each path clamps.
\<close>

theorem forecast_nonneg:
  assumes "\<forall>x \<in> set data. 0 \<le> x" and "0 < periods"
  shows "(\<forall>v \<in> set (predict L data periods method). 0 \<le> v) \<and>
         (\<forall>v \<in> set (forecast (forecast_with_intervals L data periods alpha method)). 0 \<le> v) \<and>
         (\<forall>v \<in> set (lower_bound (forecast_with_intervals L data periods alpha method)). 0 \<le> v)"
proof -
  have "forecast (forecast_with_intervals L data periods alpha method) =
          predict L data periods method"
    by (simp add: forecast_with_intervals_def predict_def Let_def)
  then show ?thesis
    using predict_nonneg lower_bound_nonneg by auto
qed

lemma fwi_constant_123:
  "forecast_with_intervals constant_lib [1, 2, 3] 2 alpha ''ets'' =
     \<lparr> forecast = [7, 7], lower_bound = [7, 7], upper_bound = [7, 7],
       confidence_level = Some ((1 - alpha) * 100) \<rparr>"
  by (simp add: forecast_with_intervals_def predict_def predict_ets_def ets_search_def
      ets_models_def keep_best_def constant_lib_def Let_def numeral_2_eq_2
      diff_dropna_def np_std_def np_var_def np_mean_def upto_rec1)

lemma predict_constant_123: "predict constant_lib [1, 2, 3] 2 ''ets'' = [7, 7]"
  by (simp add: predict_def predict_ets_def ets_search_def ets_models_def keep_best_def
      constant_lib_def Let_def numeral_2_eq_2)

theorem forecast_nonneg_witness:
  "list_all (\<lambda>x. 0 \<le> x) [1, 2, 3::real] \<and> (0::int) < 2 \<and>
   predict constant_lib [1, 2, 3] 2 ''ets'' = [7, 7] \<and>
   list_all (\<lambda>v. 0 \<le> v) (predict constant_lib [1, 2, 3] 2 ''ets'') \<and>
   list_all (\<lambda>v. 0 \<le> v)
     (lower_bound (forecast_with_intervals constant_lib [1, 2, 3] 2 (1/20) ''ets''))"
  using forecast_nonneg [of "[1, 2, 3]" 2 constant_lib "''ets''" "1/20"]
  by (simp add: list_all_iff fwi_constant_123 predict_constant_123)

text \<open>
  Claim C9: for every series, number of periods and method, two calls of
  \<open>forecast_with_intervals\<close> that differ in the significance level only return the same
  forecast, the same lower bounds and the same upper bounds (the width uses the fixed
  1.96). The level shows in \<open>confidence_level\<close> alone, reported as
  \<open>(1 - alpha) * 100\<close>; the early return for fewer than three points reports no
  confidence level at all.
\<close>

theorem forecast_alpha_independent:
  "forecast (forecast_with_intervals L data periods alpha1 method) =
     forecast (forecast_with_intervals L data periods alpha2 method) \<and>
   lower_bound (forecast_with_intervals L data periods alpha1 method) =
     lower_bound (forecast_with_intervals L data periods alpha2 method) \<and>
   upper_bound (forecast_with_intervals L data periods alpha1 method) =
     upper_bound (forecast_with_intervals L data periods alpha2 method) \<and>
   confidence_level (forecast_with_intervals L data periods alpha1 method) =
     (if length data < 3 then None else Some ((1 - alpha1) * 100))"
  by (simp add: forecast_with_intervals_def Let_def)

text \<open>The claim read for every series fails on a series of two points: the result
  reports no confidence level.\<close>

theorem forecast_alpha_independent_counterexample:
  "confidence_level (forecast_with_intervals constant_lib [1, 2] 1 (1/20) ''ets'') = None"
  by (simp add: forecast_with_intervals_def)

theorem forecast_alpha_independent_witness:
  "forecast_with_intervals constant_lib [1, 2, 3] 2 (1/20) ''ets'' =
     \<lparr> forecast = [7, 7], lower_bound = [7, 7], upper_bound = [7, 7],
       confidence_level = Some 95 \<rparr> \<and>
   forecast_with_intervals constant_lib [1, 2, 3] 2 (1/10) ''ets'' =
     \<lparr> forecast = [7, 7], lower_bound = [7, 7], upper_bound = [7, 7],
       confidence_level = Some 90 \<rparr>"
  using forecast_alpha_independent [of constant_lib "[1, 2, 3]" 2 "1/20" "''ets''" "1/10"]
  by (simp add: fwi_constant_123)

section \<open>Properties of anomaly detection\<close>

lemma anomaly_loop_indices:
  "snd (anomaly_loop data t ps) = map fst (filter (\<lambda>p. flagged (snd p) t) ps)"
  by (induction ps) (auto simp: flagged_def Let_def case_prod_beta)

lemma anomaly_loop_index:
  "map index (fst (anomaly_loop data t ps)) = snd (anomaly_loop data t ps)"
  by (induction ps) (auto simp: Let_def case_prod_beta)

lemma filter_enumerate:
  "map fst (filter (\<lambda>p. P (snd p)) (enumerate 0 zs)) = filter (\<lambda>i. P (zs ! i)) [0..<length zs]"
proof -
  have "enumerate 0 zs = map (\<lambda>i. (i, zs ! i)) [0..<length zs]"
    by (intro nth_equalityI) (simp_all add: nth_enumerate_eq)
  then show ?thesis
    by (simp add: filter_map comp_def)
qed

text \<open>
  Claim C7: for every series of at least three points and every threshold,
  \<open>detect_anomalies\<close> returns a result whose \<open>z_scores\<close> has the length of the series,
  with 0 at each position whose z-score is NaN; such a position is never among the
  anomalies; the anomalies are exactly the flagged positions, in order; and
  \<open>anomaly_rate\<close> is their number divided by the length of the series.
\<close>

theorem detect_anomalies_nan:
  assumes "3 \<le> length data"
  shows "\<exists>r. detect_anomalies data t = Inr r \<and>
           length (z_scores r) = length data \<and>
           anomaly_indices r =
             filter (\<lambda>i. flagged (raw_z_scores data ! i) t) [0..<length data] \<and>
           map index (anomalies r) = anomaly_indices r \<and>
           (\<forall>i < length data. raw_z_scores data ! i = NaN \<longrightarrow>
              z_scores r ! i = Finite 0 \<and> i \<notin> set (anomaly_indices r)) \<and>
           anomaly_rate r = real (length (anomaly_indices r)) / real (length data)"
proof -
  let ?zs = "raw_z_scores data"
  let ?lp = "anomaly_loop data t (enumerate 0 ?zs)"
  let ?r = "\<lparr> anomalies = fst ?lp, anomaly_indices = snd ?lp,
              anomaly_rate = real (length (fst ?lp)) / real (length data),
              threshold = t, z_scores = map fillna0 ?zs \<rparr>"
  have len: "length ?zs = length data"
    by (simp add: raw_z_scores_def Let_def)
  have ne: "data \<noteq> []" using assms by auto
  have r: "detect_anomalies data t = Inr ?r"
    using assms ne by (simp add: detect_anomalies_def Let_def case_prod_beta)
  have idx: "snd ?lp = filter (\<lambda>i. flagged (?zs ! i) t) [0..<length data]"
    using filter_enumerate [of "\<lambda>z. flagged z t" ?zs]
    by (simp add: anomaly_loop_indices len)
  have same: "map index (fst ?lp) = snd ?lp"
    by (rule anomaly_loop_index)
  then have cnt: "length (fst ?lp) = length (snd ?lp)"
    by (metis length_map)
  have nan: "?zs ! i = NaN \<longrightarrow> map fillna0 ?zs ! i = Finite 0 \<and> i \<notin> set (snd ?lp)"
    if "i < length data" for i
    using that len by (auto simp: idx flagged_def isnan_def)
  show ?thesis
    using r len idx same cnt nan by (intro exI [of _ ?r]) simp
qed

lemma raw_z_scores_ramp:
  "raw_z_scores [1, 2, 3, 4, 5, 6, 7, 8, 9] =
     [NaN, NaN, Finite 1, Finite 1, Finite 1, Finite 1, Finite 1, Finite 1, Finite 1]"
  by (simp add: raw_z_scores_def z_score_at_def rolling_mean_def rolling_std_def
      rolling_window_def sample_std_def np_mean_def float_div_def upt_rec power2_eq_square)

lemma detect_anomalies_ramp:
  "detect_anomalies [1, 2, 3, 4, 5, 6, 7, 8, 9] (1/2) =
     Inr \<lparr> anomalies =
             map (\<lambda>i. \<lparr> index = i, val = real i + 1, z_score = Finite 1,
                        anomaly_type = ''high'' \<rparr>) [2, 3, 4, 5, 6, 7, 8],
           anomaly_indices = [2, 3, 4, 5, 6, 7, 8],
           anomaly_rate = 7 / 9,
           threshold = 1/2,
           z_scores = [Finite 0, Finite 0, Finite 1, Finite 1, Finite 1, Finite 1, Finite 1,
                       Finite 1, Finite 1] \<rparr>"
  by (simp add: detect_anomalies_def raw_z_scores_ramp enumerate_eq_zip upt_rec isnan_def)

theorem detect_anomalies_nan_witness:
  "3 \<le> length [1, 2, 3, 4, 5, 6, 7, 8, 9 :: real] \<and>
   raw_z_scores [1, 2, 3, 4, 5, 6, 7, 8, 9] ! 1 = NaN \<and>
   (case detect_anomalies [1, 2, 3, 4, 5, 6, 7, 8, 9] (1/2) of
      Inl e \<Rightarrow> False
    | Inr r \<Rightarrow> z_scores r ! 1 = Finite 0 \<and> anomaly_indices r = [2, 3, 4, 5, 6, 7, 8] \<and>
              anomaly_rate r = 7 / 9)"
  using detect_anomalies_nan [of "[1, 2, 3, 4, 5, 6, 7, 8, 9]" "1/2"]
  by (simp add: detect_anomalies_ramp raw_z_scores_ramp)

section \<open>Properties of change-point detection\<close>

lemma length_cumsum_from: "length (cumsum_from acc xs) = length xs"
  by (induction xs arbitrary: acc) simp_all

lemma clusters_Cons_hd: "\<exists>g gs. clusters (c # rest) = (c # g) # gs"
  by (induction "c # rest" arbitrary: c rest rule: clusters.induct) (auto split: list.splits)

lemma concat_clusters: "concat (clusters xs) = xs"
  by (induction xs rule: clusters.induct) (auto split: list.splits)

lemma clusters_nonempty: "g \<in> set (clusters xs) \<Longrightarrow> g \<noteq> []"
  by (induction xs arbitrary: g rule: clusters.induct) (auto split: list.splits if_splits)

lemma clusters_chain: "g \<in> set (clusters xs) \<Longrightarrow> successively near g"
proof (induction xs arbitrary: g rule: clusters.induct)
  case (3 c d rest)
  obtain h hs where h: "clusters (d # rest) = (d # h) # hs"
    using clusters_Cons_hd by blast
  show ?case
  proof (cases "near c d")
    case True
    with "3.prems" h have "g = c # d # h \<or> g \<in> set hs" by auto
    then show ?thesis
    proof
      assume "g = c # d # h"
      moreover have "successively near (d # h)" using "3.IH"(1) [OF True] h by simp
      ultimately show ?thesis using True by simp
    next
      assume "g \<in> set hs"
      then show ?thesis using "3.IH"(1) [OF True] h by simp
    qed
  next
    case False
    with "3.prems" have "g = [c] \<or> g \<in> set (clusters (d # rest))" by auto
    then show ?thesis using "3.IH"(2) [OF False] by auto
  qed
qed simp_all

lemma clusters_gaps:
  "successively (\<lambda>g h. \<not> near (last g) (hd h)) (clusters xs)"
proof (induction xs rule: clusters.induct)
  case (3 c d rest)
  obtain h hs where h: "clusters (d # rest) = (d # h) # hs"
    using clusters_Cons_hd by blast
  show ?case
  proof (cases "near c d")
    case True
    then show ?thesis using "3.IH"(1) [OF True] h by (auto simp: successively_Cons)
  next
    case False
    then show ?thesis using "3.IH"(2) [OF False] h by (auto simp: successively_Cons)
  qed
qed simp_all

lemma clusters_single: "xs \<noteq> [] \<Longrightarrow> successively near xs \<Longrightarrow> clusters xs = [xs]"
  by (induction xs rule: clusters.induct) auto

lemma clusters_split:
  "xs \<noteq> [] \<Longrightarrow> successively near xs \<Longrightarrow> \<not> near (last xs) y \<Longrightarrow>
     clusters (xs @ y # ys) = xs # clusters (y # ys)"
proof (induction xs rule: clusters.induct)
  case (2 c)
  then show ?case by simp
next
  case (3 c d rest)
  then show ?case by simp
qed simp

lemma grouping_clusters:
  "successively near (c0 # cs) \<Longrightarrow>
     grouping c0 cs rest = map representative (clusters (c0 # cs @ rest))"
proof (induction rest arbitrary: c0 cs)
  case Nil
  then show ?case by (simp add: clusters_single representative_def)
next
  case (Cons cp rest)
  show ?case
  proof (cases "near (last (c0 # cs)) cp")
    case True
    have "successively near (c0 # (cs @ [cp]))"
      using Cons.prems True
      by (metis append_Cons successively_append_iff list.distinct(1) list.sel(1)
          successively.simps(2))
    from Cons.IH [OF this] True show ?thesis by simp
  next
    case False
    have "grouping cp [] rest = map representative (clusters (cp # rest))"
      using Cons.IH [of cp "[]"] by simp
    moreover have "clusters ((c0 # cs) @ cp # rest) = (c0 # cs) # clusters (cp # rest)"
      using Cons.prems False by (intro clusters_split) simp_all
    ultimately show ?thesis using False by (simp add: representative_def)
  qed
qed

lemma group_change_points_clusters:
  "group_change_points cps = map representative (clusters cps)"
  using grouping_clusters [of _ "[]"]
  by (cases cps) (simp_all add: group_change_points_def)


lemma first_max_abs_step:
  assumes "first_max_abs pre b"
  shows "first_max_abs (pre @ [x])
           (if \<bar>cp_cumulative_sum x\<bar> > \<bar>cp_cumulative_sum b\<bar> then x else b)"
proof -
  from assms obtain k where k: "k < length pre" "b = pre ! k"
    "\<forall>j < length pre. \<bar>cp_cumulative_sum (pre ! j)\<bar> \<le> \<bar>cp_cumulative_sum b\<bar>"
    "\<forall>j < k. \<bar>cp_cumulative_sum (pre ! j)\<bar> < \<bar>cp_cumulative_sum b\<bar>"
    unfolding first_max_abs_def by blast
  show ?thesis
  proof (cases "\<bar>cp_cumulative_sum x\<bar> > \<bar>cp_cumulative_sum b\<bar>")
    case True
    have "\<bar>cp_cumulative_sum ((pre @ [x]) ! j)\<bar> \<le> \<bar>cp_cumulative_sum x\<bar>"
      if "j < length (pre @ [x])" for j
      using that k(3) True by (cases "j < length pre") (force simp: nth_append)+
    moreover have "\<bar>cp_cumulative_sum ((pre @ [x]) ! j)\<bar> < \<bar>cp_cumulative_sum x\<bar>"
      if "j < length pre" for j
      using that k(3) True by (force simp: nth_append)
    ultimately show ?thesis
      using True unfolding first_max_abs_def
      by (intro exI [of _ "length pre"]) simp
  next
    case False
    have "\<bar>cp_cumulative_sum ((pre @ [x]) ! j)\<bar> \<le> \<bar>cp_cumulative_sum b\<bar>"
      if "j < length (pre @ [x])" for j
      using that k(3) False by (cases "j < length pre") (force simp: nth_append)+
    moreover have "\<bar>cp_cumulative_sum ((pre @ [x]) ! j)\<bar> < \<bar>cp_cumulative_sum b\<bar>"
      if "j < k" for j
      using that k(1,4) by (simp add: nth_append)
    ultimately show ?thesis
      using False k(1,2) unfolding first_max_abs_def
      by (intro exI [of _ k]) (simp add: nth_append)
  qed
qed

lemma first_max_abs_foldl:
  "first_max_abs pre b \<Longrightarrow>
     first_max_abs (pre @ cs)
       (foldl (\<lambda>best x. if \<bar>cp_cumulative_sum x\<bar> > \<bar>cp_cumulative_sum best\<bar> then x else best)
          b cs)"
proof (induction cs arbitrary: pre b)
  case Nil
  then show ?case by simp
next
  case (Cons x cs)
  from Cons.IH [OF first_max_abs_step [OF Cons.prems, of x]] show ?case by simp
qed

lemma first_max_abs_max_abs: "first_max_abs (c # cs) (max_abs c cs)"
proof -
  have "first_max_abs [c] c" by (simp add: first_max_abs_def)
  from first_max_abs_foldl [OF this, of cs] show ?thesis by (simp add: max_abs_def)
qed

lemma first_max_abs_representative: "g \<noteq> [] \<Longrightarrow> first_max_abs g (representative g)"
  using first_max_abs_max_abs [of "hd g" "tl g"] by (simp add: representative_def)

lemma first_max_abs_mem: "first_max_abs g m \<Longrightarrow> m \<in> set g"
  by (auto simp: first_max_abs_def)

lemma subseq_grouping: "subseq (grouping c0 cs rest) (c0 # cs @ rest)"
proof (induction rest arbitrary: c0 cs)
  case Nil
  show ?case
    using first_max_abs_mem [OF first_max_abs_max_abs [of c0 cs]]
    by (auto simp: subseq_singleton_left)
next
  case (Cons cp rest)
  show ?case
  proof (cases "near (last (c0 # cs)) cp")
    case True
    then show ?thesis using Cons.IH [of c0 "cs @ [cp]"] by simp
  next
    case False
    have "subseq [max_abs c0 cs] (c0 # cs)"
      using first_max_abs_mem [OF first_max_abs_max_abs [of c0 cs]]
      by (auto simp: subseq_singleton_left)
    from list_emb_append_mono [OF this Cons.IH [of cp "[]"]] False
    show ?thesis by simp
  qed
qed

lemma subseq_group_change_points: "subseq (group_change_points cps) cps"
  using subseq_grouping [of _ "[]"]
  by (cases cps) (simp_all add: group_change_points_def)

lemma sorted_wrt_subseq: "subseq xs ys \<Longrightarrow> sorted_wrt P ys \<Longrightarrow> sorted_wrt P xs"
proof (induction rule: list_emb.induct)
  case (list_emb_Cons xs ys y)
  then show ?case by simp
next
  case (list_emb_Cons2 x y xs ys)
  then show ?case using list_emb_set [of "(=)" xs ys] by (auto simp: subset_iff)
qed simp

lemma candidates_indices_sorted: "sorted_wrt (<) (map cp_index (candidates data t))"
  by (simp add: candidates_def Let_def comp_def sorted_wrt_filter)

lemma cumsum_from_nth:
  "k < length xs \<Longrightarrow> cumsum_from acc xs ! k = acc + sum_list (take (Suc k) xs)"
proof (induction xs arbitrary: acc k)
  case Nil
  then show ?case by simp
next
  case (Cons x xs)
  then show ?case by (cases k) (simp_all add: add.assoc)
qed

lemma np_cumsum_nth: "k < length xs \<Longrightarrow> np_cumsum xs ! k = sum_list (take (Suc k) xs)"
  by (simp add: np_cumsum_def cumsum_from_nth)

lemma clusters_same:
  assumes "sorted_wrt (<) (map cp_index xs)" and "a \<in> set xs" and "b \<in> set xs"
    and "cp_index a \<le> cp_index b" and "cp_index b - cp_index a < 5"
  shows "\<exists>g \<in> set (clusters xs). a \<in> set g \<and> b \<in> set g"
  using assms
proof (induction xs arbitrary: a b rule: clusters.induct)
  case 1
  then show ?case by simp
next
  case (2 c)
  then show ?case by simp
next
  case (3 c d rest)
  obtain h hs where h: "clusters (d # rest) = (d # h) # hs"
    using clusters_Cons_hd by blast
  have srt: "sorted_wrt (<) (map cp_index (d # rest))" using "3.prems"(1) by simp
  have lt: "cp_index c < cp_index x" if "x \<in> set (d # rest)" for x
    using "3.prems"(1) that by auto
  have tail: "\<exists>g \<in> set (clusters (d # rest)). x \<in> set g \<and> y \<in> set g"
    if "x \<in> set (d # rest)" "y \<in> set (d # rest)" "cp_index x \<le> cp_index y"
      "cp_index y - cp_index x < 5" for x y
    using "3.IH"(1) [OF _ srt that] "3.IH"(2) [OF _ srt that] by (cases "near c d") blast+
  have lift: "\<exists>g \<in> set (clusters (c # d # rest)). x \<in> set g \<and> y \<in> set g"
    if "\<exists>g \<in> set (clusters (d # rest)). x \<in> set g \<and> y \<in> set g" for x y
    using that h by (cases "near c d") auto
  consider "a = c" "b = c" | "a = c" "b \<noteq> c" | "a \<noteq> c" "b = c" | "a \<noteq> c" "b \<noteq> c"
    by blast
  then show ?case
  proof cases
    case 1
    then show ?thesis using h by (cases "near c d") auto
  next
    case 2
    then have b: "b \<in> set (d # rest)" using "3.prems"(3) by auto
    have "cp_index d \<le> cp_index b"
      using srt b by (auto simp: less_imp_le)
    moreover have "cp_index c < cp_index d" using lt by simp
    ultimately have nr: "near c d" and "cp_index b - cp_index d < 5"
      using "3.prems"(5) 2(1) by (auto simp: near_def)
    with tail [of d b] b \<open>cp_index d \<le> cp_index b\<close>
    obtain g where g: "g \<in> set (clusters (d # rest))" "d \<in> set g" "b \<in> set g" by auto
    have "d \<notin> set (concat hs)"
    proof -
      have "h @ concat hs = rest" using concat_clusters [of "d # rest"] h by simp
      then have "set (concat hs) \<subseteq> set rest" by auto
      moreover have "d \<notin> set rest" using srt by auto
      ultimately show ?thesis by blast
    qed
    with g h have "g = d # h" by auto
    with g nr h 2(1) show ?thesis by auto
  next
    case 3
    then have "a \<in> set (d # rest)" using "3.prems"(2) by auto
    from lt [OF this] 3(2) "3.prems"(4) show ?thesis by simp
  next
    case 4
    then have "a \<in> set (d # rest)" "b \<in> set (d # rest)"
      using "3.prems"(2,3) by auto
    from lift [OF tail [OF this "3.prems"(4,5)]] show ?thesis .
  qed
qed

text \<open>
  Claim C6: for every series of at least five points, \<open>detect_change_points\<close> returns
  the full cumulative-sum sequence (one running sum of the deviations per position) and
  one representative per cluster of raw candidates, in the order of the clusters and
  with increasing positions. The clusters partition the candidates in order; neighbours
  inside a cluster are fewer than 5 positions apart and consecutive clusters are at least
  5 apart, so two candidates whose positions differ by fewer than 5 share a cluster. The
  representative is the cluster's first member of maximal absolute cumulative sum.
\<close>

theorem detect_change_points_clusters:
  assumes "5 \<le> length data"
  shows "\<exists>r. detect_change_points data t = Inr r \<and>
           length (cumulative_sum r) = length data \<and>
           (\<forall>k < length data.
              cumulative_sum r ! k = sum_list (take (Suc k) (deviation_of data))) \<and>
           concat (clusters (candidates data t)) = candidates data t \<and>
           (\<forall>g \<in> set (clusters (candidates data t)). g \<noteq> [] \<and> successively near g) \<and>
           successively (\<lambda>g h. \<not> near (last g) (hd h)) (clusters (candidates data t)) \<and>
           (\<forall>a \<in> set (candidates data t). \<forall>b \<in> set (candidates data t).
              cp_index a \<le> cp_index b \<and> cp_index b - cp_index a < 5 \<longrightarrow>
              (\<exists>g \<in> set (clusters (candidates data t)). a \<in> set g \<and> b \<in> set g)) \<and>
           length (change_points r) = length (clusters (candidates data t)) \<and>
           (\<forall>k < length (change_points r).
              first_max_abs (clusters (candidates data t) ! k) (change_points r ! k)) \<and>
           sorted_wrt (<) (map cp_index (change_points r))"
proof -
  let ?raw = "candidates data t"
  let ?r = "\<lparr> change_points = group_change_points ?raw,
              cumulative_sum = np_cumsum (deviation_of data), cp_threshold = t \<rparr>"
  have ne: "data \<noteq> []" using assms by auto
  have r: "detect_change_points data t = Inr ?r"
    using assms ne by (simp add: detect_change_points_def)
  have len: "length (cumulative_sum ?r) = length data"
    by (simp add: np_cumsum_def length_cumsum_from deviation_of_def)
  have nth: "\<forall>k < length data.
      cumulative_sum ?r ! k = sum_list (take (Suc k) (deviation_of data))"
    by (simp add: np_cumsum_nth deviation_of_def)
  have grp: "group_change_points ?raw = map representative (clusters ?raw)"
    by (rule group_change_points_clusters)
  have cat: "concat (clusters ?raw) = ?raw"
    by (rule concat_clusters)
  have chains: "\<forall>g \<in> set (clusters ?raw). g \<noteq> [] \<and> successively near g"
    using clusters_nonempty clusters_chain by blast
  have gaps: "successively (\<lambda>g h. \<not> near (last g) (hd h)) (clusters ?raw)"
    by (rule clusters_gaps)
  have pairs: "\<forall>a \<in> set ?raw. \<forall>b \<in> set ?raw.
      cp_index a \<le> cp_index b \<and> cp_index b - cp_index a < 5 \<longrightarrow>
      (\<exists>g \<in> set (clusters ?raw). a \<in> set g \<and> b \<in> set g)"
    using clusters_same [OF candidates_indices_sorted] by blast
  have cnt: "length (change_points ?r) = length (clusters ?raw)"
    by (simp add: grp)
  have reps: "\<forall>k < length (change_points ?r).
      first_max_abs (clusters ?raw ! k) (change_points ?r ! k)"
    using clusters_nonempty [of _ ?raw]
    by (simp add: grp first_max_abs_representative)
  have ord: "sorted_wrt (<) (map cp_index (change_points ?r))"
  proof -
    have "sorted_wrt (\<lambda>a b. cp_index a < cp_index b) ?raw"
      using candidates_indices_sorted [of data t] by (simp add: sorted_wrt_map)
    from sorted_wrt_subseq [OF subseq_group_change_points this]
    show ?thesis by (simp add: sorted_wrt_map)
  qed
  show ?thesis
    using r len nth cat chains gaps pairs cnt reps ord
    by (intro exI [of _ ?r] conjI)
qed

lemma cumsum_example:
  "np_cumsum [0, 1, -3, 2, 0, 0, 0, 0, 0, 0, 4, -4] = [0, 1, -2, 0, 0, 0, 0, 0, 0, 0, 4, 0]"
  by (simp add: np_cumsum_def)

lemma deviation_example:
  "deviation_of [0, 1, -3, 2, 0, 0, 0, 0, 0, 0, 4, -4] = [0, 1, -3, 2, 0, 0, 0, 0, 0, 0, 4, -4]"
  by (simp add: deviation_of_def np_mean_def)

lemma upt_1_12: "[1..<12] = [1, 2, 3, 4, 5, 6, 7, 8, 9, 10, 11]"
  by (simp add: upt_rec)

lemma length_12: "length [a1, a2, a3, a4, a5, a6, a7, a8, a9, a10, a11, a12] = 12"
  by simp

lemma candidates_example:
  "candidates [0, 1, -3, 2, 0, 0, 0, 0, 0, 0, 4, -4] 0 =
     [\<lparr> cp_index = 1, cp_value = 1, cp_cumulative_sum = 1 \<rparr>,
      \<lparr> cp_index = 2, cp_value = -3, cp_cumulative_sum = -2 \<rparr>,
      \<lparr> cp_index = 10, cp_value = 4, cp_cumulative_sum = 4 \<rparr>]"
  unfolding candidates_def Let_def deviation_example cumsum_example length_12 upt_1_12
  by simp


lemma group_example:
  "group_change_points
     [\<lparr> cp_index = 1, cp_value = 1, cp_cumulative_sum = 1 \<rparr>,
      \<lparr> cp_index = 2, cp_value = -3, cp_cumulative_sum = -2 \<rparr>,
      \<lparr> cp_index = 10, cp_value = 4, cp_cumulative_sum = 4 \<rparr>] =
     [\<lparr> cp_index = 2, cp_value = -3, cp_cumulative_sum = -2 \<rparr>,
      \<lparr> cp_index = 10, cp_value = 4, cp_cumulative_sum = 4 \<rparr>]"
  by (simp add: group_change_points_def near_def max_abs_def)

lemma detect_change_points_example:
  "detect_change_points [0, 1, -3, 2, 0, 0, 0, 0, 0, 0, 4, -4] 0 =
     Inr \<lparr> change_points =
             [\<lparr> cp_index = 2, cp_value = -3, cp_cumulative_sum = -2 \<rparr>,
              \<lparr> cp_index = 10, cp_value = 4, cp_cumulative_sum = 4 \<rparr>],
           cumulative_sum = [0, 1, -2, 0, 0, 0, 0, 0, 0, 0, 4, 0],
           cp_threshold = 0 \<rparr>"
  unfolding detect_change_points_def candidates_example group_example deviation_example
    cumsum_example
  by simp

lemma clusters_example:
  "clusters (candidates [0, 1, -3, 2, 0, 0, 0, 0, 0, 0, 4, -4] 0) =
     [[\<lparr> cp_index = 1, cp_value = 1, cp_cumulative_sum = 1 \<rparr>,
       \<lparr> cp_index = 2, cp_value = -3, cp_cumulative_sum = -2 \<rparr>],
      [\<lparr> cp_index = 10, cp_value = 4, cp_cumulative_sum = 4 \<rparr>]]"
  unfolding candidates_example by (simp add: near_def)

theorem detect_change_points_clusters_witness:
  "5 \<le> length [0, 1, -3, 2, 0, 0, 0, 0, 0, 0, 4, -4 :: real] \<and>
   detect_change_points [0, 1, -3, 2, 0, 0, 0, 0, 0, 0, 4, -4] 0 =
     Inr \<lparr> change_points =
             [\<lparr> cp_index = 2, cp_value = -3, cp_cumulative_sum = -2 \<rparr>,
              \<lparr> cp_index = 10, cp_value = 4, cp_cumulative_sum = 4 \<rparr>],
           cumulative_sum = [0, 1, -2, 0, 0, 0, 0, 0, 0, 0, 4, 0],
           cp_threshold = 0 \<rparr> \<and>
   clusters (candidates [0, 1, -3, 2, 0, 0, 0, 0, 0, 0, 4, -4] 0) =
     [[\<lparr> cp_index = 1, cp_value = 1, cp_cumulative_sum = 1 \<rparr>,
       \<lparr> cp_index = 2, cp_value = -3, cp_cumulative_sum = -2 \<rparr>],
      [\<lparr> cp_index = 10, cp_value = 4, cp_cumulative_sum = 4 \<rparr>]]"
proof -
  have len: "5 \<le> length [0, 1, -3, 2, 0, 0, 0, 0, 0, 0, 4, -4 :: real]" by simp
  note detect_change_points_clusters [OF len, of 0]
  then show ?thesis
    using len detect_change_points_example clusters_example by blast
qed

section \<open>Properties of seasonal decomposition\<close>

lemma try_period_ratio:
  assumes "2 * p \<le> length ts"
  shows "try_period sd ts best p =
           (case ratio sd ts p of
              None \<Rightarrow> (if sd ts ''additive'' p \<noteq> None \<and>
                           dropna (dec_resid (the (sd ts ''additive'' p))) \<noteq> [] \<and>
                           0 < np_var (dropna (dec_resid (the (sd ts ''additive'' p)))) \<and>
                           float_lt PosInf (snd best)
                        then (p, PosInf) else best)
            | Some r \<Rightarrow> if float_lt (Finite r) (snd best) then (p, Finite r) else best)"
  using assms
  by (auto simp: try_period_def ratio_def Let_def float_div_def split: option.splits)

lemma auto_period_lowest:
  assumes "24 \<le> length ts"
  shows "auto_period sd ts = lowest_ratio_period sd ts"
proof -
  have f12: "2 * 12 \<le> length ts" and f4: "2 * 4 \<le> length ts" using assms by simp_all
  show ?thesis
    unfolding auto_period_def periods_to_try_def lowest_ratio_period_def
    by (simp add: try_period_ratio [OF f12] try_period_ratio [OF f4] split: option.splits)
qed

text \<open>
  For every series of at least 24 points and no period given, \<open>decompose_time_series\<close>
  decomposes with period 12, whatever the library returns for the candidates, and
  \<open>detect_seasonality\<close> decomposes with the candidate of the lowest ratio.
\<close>

lemma decompose_time_series_default:
  assumes "24 \<le> length data"
  shows "decompose_time_series sd data None m =
           (case sd data m 12 of
              None \<Rightarrow> Inl (Raised LibraryError)
            | Some d \<Rightarrow> Inr \<lparr> trend = dropna (dec_trend d), seasonal = dec_seasonal d,
                              residual = dropna (dec_resid d), period = 12, model = m \<rparr>)"
proof -
  have "data \<noteq> []" and "\<not> length data < 24" using assms by auto
  then show ?thesis by (simp add: decompose_time_series_def)
qed

lemma detect_seasonality_period:
  assumes "24 \<le> length data"
  shows "case detect_seasonality sd data None of
           Inl e \<Rightarrow> e = Raised LibraryError \<and>
                    sd data ''additive'' (lowest_ratio_period sd data) = None
         | Inr r \<Rightarrow> ds_period r = lowest_ratio_period sd data"
proof -
  have "data \<noteq> []" and "\<not> length data < 24" using assms by auto
  then show ?thesis
    by (simp add: detect_seasonality_def auto_period_lowest [OF assms] Let_def
        split: option.splits)
qed

text \<open>The decomposition of \<open>series25\<close> for the two candidates, step by step.\<close>

lemma startswith_additive: "startswith_m ''additive'' = False"
  by (simp add: startswith_m_def)

lemma upt_25:
  "[0..<25] = [0, 1, 2, 3, 4, 5, 6, 7, 8, 9, 10, 11, 12, 13, 14, 15, 16, 17, 18, 19, 20, 21,
     22, 23, 24]"
  by (simp add: upt_rec)

lemma upt_4: "[0..<4] = [0, 1, 2, 3]"
  by (simp add: upt_rec)

lemma upt_12: "[0..<12] = [0, 1, 2, 3, 4, 5, 6, 7, 8, 9, 10, 11]"
  by (simp add: upt_rec)

lemma length_series25: "length series25 = 25"
  by (simp add: series25_def)

lemma moving_average_4:
  "moving_average 4 series25 =
      [None, None, Some (1), Some (1), Some (9 / 8), Some (5 / 4), Some (5 / 4),
       Some (5 / 4), Some (9 / 8), Some (1), Some (1), Some (1), Some (1), Some (1),
       Some (1), Some (1), Some (1), Some (1), Some (1), Some (1), Some (1), Some (1),
       Some (1), None, None]"
  unfolding moving_average_def length_series25 upt_25
  by (simp add: series25_def)

lemma detrend_4:
  "detrend False series25 (moving_average 4 series25) =
      [None, None, Some (- 1), Some (- 1), Some (- (9 / 8)), Some (11 / 4),
       Some (- (1 / 4)), Some (- (5 / 4)), Some (- (9 / 8)), Some (3), Some (- 1),
       Some (- 1), Some (- 1), Some (3), Some (- 1), Some (- 1), Some (- 1), Some (3),
       Some (- 1), Some (- 1), Some (- 1), Some (3), Some (- 1), None, None]"
  unfolding moving_average_4 detrend_def
  by (simp add: series25_def)

lemma length_detrend_4: "length (detrend False series25 (moving_average 4 series25)) = 25"
  by (simp add: detrend_4)

lemma averages_4:
  "map (period_average 4 (detrend False series25 (moving_average 4 series25))) [0..<4] =
      [- (21 / 20), 59 / 20, - (7 / 8), - (21 / 20)]"
  unfolding upt_4 list.map period_average_def length_detrend_4 upt_25 detrend_4
  by (simp add: np_mean_def)

lemma classical_decompose_4:
  "classical_decompose series25 ''additive'' 4 =
     Some \<lparr> dec_trend = moving_average 4 series25,
            dec_seasonal =
              [- (167 / 160), 473 / 160, - (139 / 160), - (167 / 160), - (167 / 160),
               473 / 160, - (139 / 160), - (167 / 160), - (167 / 160), 473 / 160,
               - (139 / 160), - (167 / 160), - (167 / 160), 473 / 160, - (139 / 160),
               - (167 / 160), - (167 / 160), 473 / 160, - (139 / 160), - (167 / 160),
               - (167 / 160), 473 / 160, - (139 / 160), - (167 / 160), - (167 / 160)],
            dec_resid =
              [None, None, Some (- (21 / 160)), Some (7 / 160), Some (- (13 / 160)),
               Some (- (33 / 160)), Some (99 / 160), Some (- (33 / 160)),
               Some (- (13 / 160)), Some (7 / 160), Some (- (21 / 160)), Some (7 / 160),
               Some (7 / 160), Some (7 / 160), Some (- (21 / 160)), Some (7 / 160),
               Some (7 / 160), Some (7 / 160), Some (- (21 / 160)), Some (7 / 160),
               Some (7 / 160), Some (7 / 160), Some (- (21 / 160)), None, None] \<rparr>"
  unfolding classical_decompose_def Let_def startswith_additive
  unfolding averages_4
  unfolding detrend_4 length_series25 upt_25
  by (simp add: np_mean_def)

lemma ratio_4: "ratio classical_decompose series25 4 = Some (293750 / 29855133)"
  unfolding ratio_def classical_decompose_4
  by (simp add: np_var_def np_mean_def power2_eq_square)

lemma moving_average_12:
  "moving_average 12 series25 =
      [None, None, None, None, None, None, Some (13 / 12), Some (13 / 12), Some (13 / 12),
       Some (13 / 12), Some (13 / 12), Some (13 / 12), Some (25 / 24), Some (1), Some (1),
       Some (1), Some (1), Some (1), Some (1), None, None, None, None, None, None]"
  unfolding moving_average_def length_series25 upt_25
  by (simp add: series25_def)

lemma detrend_12:
  "detrend False series25 (moving_average 12 series25) =
      [None, None, None, None, None, None, Some (- (1 / 12)), Some (- (13 / 12)),
       Some (- (13 / 12)), Some (35 / 12), Some (- (13 / 12)), Some (- (13 / 12)),
       Some (- (25 / 24)), Some (3), Some (- 1), Some (- 1), Some (- 1), Some (3),
       Some (- 1), None, None, None, None, None, None]"
  unfolding moving_average_12 detrend_def
  by (simp add: series25_def)

lemma length_detrend_12: "length (detrend False series25 (moving_average 12 series25)) = 25"
  by (simp add: detrend_12)

lemma averages_12:
  "map (period_average 12 (detrend False series25 (moving_average 12 series25))) [0..<12] =
      [- (25 / 24), 3, - 1, - 1, - 1, 3, - (13 / 24), - (13 / 12), - (13 / 12), 35 / 12,
       - (13 / 12), - (13 / 12)]"
  unfolding upt_12 list.map period_average_def length_detrend_12 upt_25 detrend_12
  by (simp add: np_mean_def)

lemma classical_decompose_12:
  "classical_decompose series25 ''additive'' 12 =
     Some \<lparr> dec_trend = moving_average 12 series25,
            dec_seasonal =
              [- (25 / 24), 3, - 1, - 1, - 1, 3, - (13 / 24), - (13 / 12), - (13 / 12),
               35 / 12, - (13 / 12), - (13 / 12), - (25 / 24), 3, - 1, - 1, - 1, 3,
               - (13 / 24), - (13 / 12), - (13 / 12), 35 / 12, - (13 / 12), - (13 / 12),
               - (25 / 24)],
            dec_resid =
              [None, None, None, None, None, None, Some (11 / 24), Some (0), Some (0),
               Some (0), Some (0), Some (0), Some (0), Some (0), Some (0), Some (0),
               Some (0), Some (0), Some (- (11 / 24)), None, None, None, None, None, None] \<rparr>"
  unfolding classical_decompose_def Let_def startswith_additive
  unfolding averages_12
  unfolding detrend_12 length_series25 upt_25
  by (simp add: np_mean_def)

lemma ratio_12: "ratio classical_decompose series25 12 = Some (3025 / 270322)"
  unfolding ratio_def classical_decompose_12
  by (simp add: np_var_def np_mean_def power2_eq_square)


lemma lowest_ratio_series25: "lowest_ratio_period classical_decompose series25 = 4"
  by (simp add: lowest_ratio_period_def ratio_4 ratio_12)

lemma auto_period_series25: "auto_period classical_decompose series25 = 4"
proof -
  have "24 \<le> length series25" by (simp add: length_series25)
  then show ?thesis by (simp add: auto_period_lowest lowest_ratio_series25)
qed

lemma detect_seasonality_series25:
  "map_sum id ds_period (detect_seasonality classical_decompose series25 None) = Inr 4"
proof -
  have ne: "series25 \<noteq> []" by (simp add: series25_def)
  show ?thesis
    unfolding detect_seasonality_def Let_def
    by (simp add: ne length_series25 auto_period_series25 classical_decompose_4)
qed

lemma decompose_series25:
  "decompose_time_series classical_decompose series25 None ''additive'' =
     Inr \<lparr> trend = [13 / 12, 13 / 12, 13 / 12, 13 / 12, 13 / 12, 13 / 12, 25 / 24, 1, 1,
                    1, 1, 1, 1],
           seasonal =
             [- (25 / 24), 3, - 1, - 1, - 1, 3, - (13 / 24), - (13 / 12), - (13 / 12),
              35 / 12, - (13 / 12), - (13 / 12), - (25 / 24), 3, - 1, - 1, - 1, 3,
              - (13 / 24), - (13 / 12), - (13 / 12), 35 / 12, - (13 / 12), - (13 / 12),
              - (25 / 24)],
           residual = [11 / 24, 0, 0, 0, 0, 0, 0, 0, 0, 0, 0, 0, - (11 / 24)],
           period = 12,
           model = ''additive'' \<rparr>"
proof -
  have ne: "series25 \<noteq> []" by (simp add: series25_def)
  show ?thesis
    unfolding decompose_time_series_def Let_def
    by (simp add: ne length_series25 classical_decompose_12 moving_average_12)
qed

text \<open>
  Claim C1 does not hold of \<open>decompose_time_series\<close>. For the series \<open>series25\<close>, no
  period given, both candidates are feasible and their ratios of residual variance to
  seasonal variance are computable: \<open>293750 / 29855133\<close> for the candidate 4 and
  \<open>3025 / 270322\<close> for the candidate 12, so that the candidate 4 has the lowest ratio; it
  is the period \<open>detect_seasonality\<close> selects. \<open>decompose_time_series\<close> evaluates no
  candidate and returns the decomposition of period 12.
\<close>

theorem decompose_period_not_detected:
  "length series25 = 25 \<and>
   ratio classical_decompose series25 4 = Some (293750 / 29855133) \<and>
   ratio classical_decompose series25 12 = Some (3025 / 270322) \<and>
   (293750 / 29855133 :: real) < 3025 / 270322 \<and>
   lowest_ratio_period classical_decompose series25 = 4 \<and>
   auto_period classical_decompose series25 = 4 \<and>
   map_sum id ds_period (detect_seasonality classical_decompose series25 None) = Inr 4 \<and>
   decompose_time_series classical_decompose series25 None ''additive'' =
     Inr \<lparr> trend = [13 / 12, 13 / 12, 13 / 12, 13 / 12, 13 / 12, 13 / 12, 25 / 24, 1, 1,
                    1, 1, 1, 1],
           seasonal =
             [- (25 / 24), 3, - 1, - 1, - 1, 3, - (13 / 24), - (13 / 12), - (13 / 12),
              35 / 12, - (13 / 12), - (13 / 12), - (25 / 24), 3, - 1, - 1, - 1, 3,
              - (13 / 24), - (13 / 12), - (13 / 12), 35 / 12, - (13 / 12), - (13 / 12),
              - (25 / 24)],
           residual = [11 / 24, 0, 0, 0, 0, 0, 0, 0, 0, 0, 0, 0, - (11 / 24)],
           period = 12,
           model = ''additive'' \<rparr>"
proof -
  have "(293750 / 29855133 :: real) < 3025 / 270322" by simp
  then show ?thesis
    by (simp only: length_series25 ratio_4 ratio_12 lowest_ratio_series25
        auto_period_series25 detect_seasonality_series25 decompose_series25 simp_thms)
qed

end
